theory Spec2Isabelle
  imports Main "HOL-Library.Word"
begin

section \<open>The keystore of theblitlabs/keystore (keystore.go)\<close>

text \<open>
  The package keeps one record (\<open>Store\<close>): an authentication token, a private key in
  hexadecimal and the Unix time at which the token was saved. \<open>save\<close> writes the record
  to one file as JSON, \<open>load\<close> reads the file back into the same record. The model
  follows keystore.go function by function. What keystore.go calls in other packages
  (\<open>encoding/json\<close>, \<open>encoding/hex\<close>, \<open>os\<close>, \<open>time\<close>, go-ethereum's \<open>crypto\<close>) is
  modelled in the first subsections, from the documented behaviour of those packages.
\<close>

subsection \<open>Go strings and UTF-8\<close>

text \<open>
  A Go \<open>string\<close> is a sequence of bytes, here a \<open>char list\<close> (\<open>char\<close> is a byte).
  \<open>utf8_seq_len bs\<close> is the size that \<open>utf8.DecodeRuneInString\<close> reports for a well-formed
  UTF-8 sequence at the head of \<open>bs\<close>, and 0 where it reports \<open>(RuneError, 1)\<close> for an
  ill-formed one (or where \<open>bs\<close> is empty). The second byte's range depends on the first
  one: no overlong forms, no surrogates, nothing above U+10FFFF.
\<close>

definition is_cont :: "nat \<Rightarrow> bool" where
  "is_cont b = (128 \<le> b \<and> b \<le> 191)"

fun utf8_seq_len :: "nat list \<Rightarrow> nat" where
  "utf8_seq_len [] = 0"
| "utf8_seq_len (b0 # r) =
     (if b0 < 128 then 1
      else if 194 \<le> b0 \<and> b0 \<le> 223 then
        (case r of
           b1 # _ \<Rightarrow> if is_cont b1 then 2 else 0
         | _ \<Rightarrow> 0)
      else if 224 \<le> b0 \<and> b0 \<le> 239 then
        (case r of
           b1 # b2 # _ \<Rightarrow>
             if (if b0 = 224 then 160 else 128) \<le> b1 \<and> b1 \<le> (if b0 = 237 then 159 else 191)
                \<and> is_cont b2
             then 3 else 0
         | _ \<Rightarrow> 0)
      else if 240 \<le> b0 \<and> b0 \<le> 244 then
        (case r of
           b1 # b2 # b3 # _ \<Rightarrow>
             if (if b0 = 240 then 144 else 128) \<le> b1 \<and> b1 \<le> (if b0 = 244 then 143 else 191)
                \<and> is_cont b2 \<and> is_cont b3
             then 4 else 0
         | _ \<Rightarrow> 0)
      else 0)"

definition rune_len :: "string \<Rightarrow> nat" where
  "rune_len s = utf8_seq_len (map of_char s)"

text \<open>The UTF-8 encoding of U+FFFD, the replacement character.\<close>

definition replacement_char :: string where
  "replacement_char = [CHR 0xEF, CHR 0xBF, CHR 0xBD]"

text \<open>
  \<open>utf8.ValidString\<close>: every byte belongs to a well-formed sequence.
\<close>

function ValidString :: "string \<Rightarrow> bool" where
  "ValidString [] = True"
| "ValidString (c # cs) =
     (if rune_len (c # cs) = 0 then False
      else ValidString (drop (rune_len (c # cs)) (c # cs)))"
  by pat_completeness auto
termination
  by (relation "measure length") auto

text \<open>
  What \<open>encoding/json\<close> writes for a string and reads back: the encoder walks the string,
  copies each well-formed sequence and writes the escape of U+FFFD for each byte where
  \<open>DecodeRuneInString\<close> gives \<open>(RuneError, 1)\<close> ("String values encode as JSON strings
  coerced to valid UTF-8, replacing invalid bytes with the Unicode replacement rune").
  Escapes of the encoder (quotes, control characters, angle brackets, U+2028) denote the
  character they escape, so they do not change the string the text denotes.
\<close>

function toValidUTF8 :: "string \<Rightarrow> string" where
  "toValidUTF8 [] = []"
| "toValidUTF8 (c # cs) =
     (if rune_len (c # cs) = 0 then replacement_char @ toValidUTF8 cs
      else take (rune_len (c # cs)) (c # cs) @ toValidUTF8 (drop (rune_len (c # cs)) (c # cs)))"
  by pat_completeness auto
termination
  by (relation "measure length") auto

subsection \<open>encoding/hex\<close>

text \<open>
  A byte is a natural number below 256. \<open>fromHexChar\<close> is the package's reverse table:
  the digits and the letters a to f in either case. \<open>hex_DecodeString\<close> follows
  \<open>hex.Decode\<close>: pairs from the left, the first character outside the table reported as
  \<open>InvalidByteError\<close>, and a single character left over checked before \<open>ErrLength\<close>.
\<close>

definition fromHexChar :: "char \<Rightarrow> nat option" where
  "fromHexChar c =
     (let n = (of_char c :: nat) in
      if 48 \<le> n \<and> n \<le> 57 then Some (n - 48)
      else if 97 \<le> n \<and> n \<le> 102 then Some (n - 97 + 10)
      else if 65 \<le> n \<and> n \<le> 70 then Some (n - 65 + 10)
      else None)"

datatype hex_error = InvalidByteError char | ErrLength

fun hex_DecodeString :: "string \<Rightarrow> hex_error + nat list" where
  "hex_DecodeString [] = Inr []"
| "hex_DecodeString [q] =
     (case fromHexChar q of
        None \<Rightarrow> Inl (InvalidByteError q)
      | Some _ \<Rightarrow> Inl ErrLength)"
| "hex_DecodeString (p # q # rest) =
     (case fromHexChar p of
        None \<Rightarrow> Inl (InvalidByteError p)
      | Some a \<Rightarrow>
          (case fromHexChar q of
             None \<Rightarrow> Inl (InvalidByteError q)
           | Some b \<Rightarrow>
               (case hex_DecodeString rest of
                  Inl e \<Rightarrow> Inl e
                | Inr bs \<Rightarrow> Inr ((a * 16 + b) # bs))))"

definition hextable :: string where
  "hextable = ''0123456789abcdef''"

definition hex_EncodeToString :: "nat list \<Rightarrow> string" where
  "hex_EncodeToString bs = concat (map (\<lambda>b. [hextable ! (b div 16), hextable ! (b mod 16)]) bs)"

subsection \<open>go-ethereum's crypto: private keys of secp256k1\<close>

text \<open>
  \<open>crypto.HexToECDSA\<close> decodes the hexadecimal string and hands the bytes to
  \<open>crypto.ToECDSA\<close>, which wants exactly 32 bytes (256 bits) and, reading them as a
  big-endian number \<open>D\<close>, refuses \<open>D \<ge> N\<close> (the order of the curve) and \<open>D = 0\<close>. The
  key object is represented by its scalar \<open>D\<close>: its public point is \<open>D\<close> times the
  generator, a function of \<open>D\<close>, and is never the point at infinity for \<open>0 < D < N\<close>.
\<close>

datatype key_error =
    InvalidHexCharacter char
  | InvalidHexData
  | InvalidLength
  | NotBelowN
  | ZeroOrNegative

datatype ecdsa_PrivateKey = EcdsaKey (D: nat)

definition secp256k1N :: nat where
  "secp256k1N = 0xFFFFFFFFFFFFFFFFFFFFFFFFFFFFFFFEBAAEDCE6AF48A03BBFD25E8CD0364141"

definition SetBytes :: "nat list \<Rightarrow> nat" where
  "SetBytes bs = foldl (\<lambda>acc b. acc * 256 + b) 0 bs"

definition ToECDSA :: "nat list \<Rightarrow> key_error + ecdsa_PrivateKey" where
  "ToECDSA d =
     (if 8 * length d \<noteq> 256 then Inl InvalidLength
      else if secp256k1N \<le> SetBytes d then Inl NotBelowN
      else if SetBytes d = 0 then Inl ZeroOrNegative
      else Inr (EcdsaKey (SetBytes d)))"

definition HexToECDSA :: "string \<Rightarrow> key_error + ecdsa_PrivateKey" where
  "HexToECDSA hexkey =
     (case hex_DecodeString hexkey of
        Inl (InvalidByteError c) \<Rightarrow> Inl (InvalidHexCharacter c)
      | Inl ErrLength \<Rightarrow> Inl InvalidHexData
      | Inr b \<Rightarrow> ToECDSA b)"

text \<open>
  The way back, for the round trip of a key: \<open>crypto.FromECDSA\<close> is
  \<open>math.PaddedBigBytes(priv.D, 32)\<close>, the big-endian bytes of \<open>D\<close> padded with zeros on the
  left to 32 bytes (a number that needs more bytes keeps them all), and
  \<open>hex.EncodeToString\<close> writes two lower-case digits for each byte.
\<close>

function big_Bytes :: "nat \<Rightarrow> nat list" where
  "big_Bytes d = (if d = 0 then [] else big_Bytes (d div 256) @ [d mod 256])"
  by pat_completeness auto
termination
  by (relation "measure id") auto

definition PaddedBigBytes :: "nat \<Rightarrow> nat \<Rightarrow> nat list" where
  "PaddedBigBytes d n =
     (if 256 ^ n \<le> d then big_Bytes d
      else map (\<lambda>i. (d div 256 ^ (n - 1 - i)) mod 256) [0..<n])"

definition FromECDSA :: "ecdsa_PrivateKey \<Rightarrow> nat list" where
  "FromECDSA priv = PaddedBigBytes (D priv) 32"

definition key_hex :: "ecdsa_PrivateKey \<Rightarrow> string" where
  "key_hex priv = hex_EncodeToString (FromECDSA priv)"

text \<open>ASCII lower case of a hexadecimal string: what re-encoding does to the letters A to F.\<close>

definition lower_char :: "char \<Rightarrow> char" where
  "lower_char c =
     (if 65 \<le> (of_char c :: nat) \<and> (of_char c :: nat) \<le> 90
      then char_of ((of_char c :: nat) + 32) else c)"

subsection \<open>The record and its configuration\<close>

type_synonym int64 = "64 word"

record Config =
  DirPath :: string
  FileName :: string

record Store =
  AuthToken :: string
  PrivateKey :: string
  CreatedAt :: int64
  config :: Config

text \<open>
  \<open>TokenExpiryDuration\<close> is \<open>1 * time.Hour\<close>, a \<open>time.Duration\<close> in nanoseconds; the
  code compares against \<open>int64(TokenExpiryDuration.Seconds())\<close>. The duration is a whole
  number of seconds, so the conversion through \<open>float64\<close> is exact: 3600.
\<close>

definition TokenExpiryDuration :: int where
  "TokenExpiryDuration = 1 * 3600000000000"

definition expiry_seconds :: int64 where
  "expiry_seconds = word_of_int (TokenExpiryDuration div 1000000000)"

subsection \<open>encoding/json on the record\<close>

text \<open>
  A file's bytes are represented by the JSON text they are: \<open>Malformed\<close> for bytes that
  are no JSON text, otherwise the value at the top. An object is the list of its
  members in the order of the text, repeated keys included. A member's key is
  represented by the field of \<open>Store\<close> that \<open>encoding/json\<close> resolves it to through the
  tags \<open>auth_token\<close>, \<open>private_key\<close> and \<open>created_at\<close> (\<open>K_other\<close> for a key of no
  field: the decoder skips such a member; \<open>config\<close> is unexported and has no key). A
  member's value is \<open>null\<close>, a string (the bytes it denotes), a number written as an
  integer, or anything else (\<open>JOther\<close>: a boolean, a number with a fraction or an
  exponent, an array, an object).
\<close>

datatype jkey = K_auth_token | K_private_key | K_created_at | K_other

datatype jvalue = JNull | JString string | JInt int | JOther

datatype jtext = Malformed | JTopNull | JObject "(jkey \<times> jvalue) list" | JTopOther

datatype json_error = SyntaxError | UnmarshalTypeError | MarshalerError

text \<open>
  \<open>json.MarshalIndent(s, "", "  ")\<close>: the exported fields in the order of the struct;
  \<open>omitempty\<close> leaves out the empty string and the number 0. Strings are written
  coerced to valid UTF-8. No value of \<open>Store\<close> makes the encoder fail.
\<close>

definition json_MarshalIndent :: "Store \<Rightarrow> json_error + jtext" where
  "json_MarshalIndent s =
     Inr (JObject
       ((if AuthToken s = [] then [] else [(K_auth_token, JString (toValidUTF8 (AuthToken s)))]) @
        (if PrivateKey s = [] then [] else [(K_private_key, JString (toValidUTF8 (PrivateKey s)))]) @
        (if CreatedAt s = 0 then [] else [(K_created_at, JInt (sint (CreatedAt s)))])))"

text \<open>
  \<open>json.Unmarshal(data, s)\<close> into the existing record. The decoder first checks that the
  whole input is a JSON text and touches nothing when it is not. Then it stores member
  by member into the field each key resolves to. \<open>null\<close> has no effect on a string or
  an integer field. A value of the wrong kind, or an integer outside \<open>int64\<close>, is an
  \<open>UnmarshalTypeError\<close>: the decoder remembers the first one, skips that member and goes
  on, and returns the error at the end. A field that no member names is not touched.
\<close>

fun d_member :: "jkey \<Rightarrow> jvalue \<Rightarrow> Store \<Rightarrow> json_error option \<times> Store" where
  "d_member K_other v s = (None, s)"
| "d_member k JNull s = (None, s)"
| "d_member K_auth_token (JString t) s = (None, s\<lparr>AuthToken := t\<rparr>)"
| "d_member K_private_key (JString t) s = (None, s\<lparr>PrivateKey := t\<rparr>)"
| "d_member K_created_at (JInt n) s =
     (if - (2 ^ 63) \<le> n \<and> n < 2 ^ 63 then (None, s\<lparr>CreatedAt := word_of_int n\<rparr>)
      else (Some UnmarshalTypeError, s))"
| "d_member k v s = (Some UnmarshalTypeError, s)"

fun d_object :: "(jkey \<times> jvalue) list \<Rightarrow> Store \<Rightarrow> json_error option \<times> Store" where
  "d_object [] s = (None, s)"
| "d_object ((k, v) # ms) s =
     (case d_member k v s of
        (e, s1) \<Rightarrow>
          (case d_object ms s1 of
             (e', s2) \<Rightarrow> ((case e of Some x \<Rightarrow> Some x | None \<Rightarrow> e'), s2)))"

fun json_Unmarshal :: "jtext \<Rightarrow> Store \<Rightarrow> json_error option \<times> Store" where
  "json_Unmarshal Malformed s = (Some SyntaxError, s)"
| "json_Unmarshal JTopNull s = (None, s)"
| "json_Unmarshal (JObject ms) s = d_object ms s"
| "json_Unmarshal JTopOther s = (Some UnmarshalTypeError, s)"

subsection \<open>The file system and the clock\<close>

text \<open>
  The world outside the record: what is at each path, and a log of the file operations
  performed, oldest first (the log is what "no I/O" is stated on). At a path there is
  nothing (\<open>NoFile\<close>), something that can be neither read nor written (\<open>NoAccess\<close>:
  permission denied, a directory), or a file with its content. \<open>os.ReadFile\<close> of a path
  with nothing fails with an error that \<open>os.IsNotExist\<close> recognises. \<open>os.WriteFile\<close>
  creates or replaces the file; a write that fails leaves the path as it was. A file
  written is read back as written. Permission bits are not modelled.

  \<open>filepath.Join\<close> drops empty elements and joins the rest with the separator; the
  lexical clean-up that it applies afterwards is not modelled: the path is only the key
  under which \<open>save\<close> writes and \<open>load\<close> reads, and both compute it alike.

  \<open>time.Now().Unix()\<close> is an argument \<open>now\<close> of the operations that read the clock: any
  \<open>int64\<close>.
\<close>

datatype os_error = ErrNotExist | ErrPermission

definition os_IsNotExist :: "os_error \<Rightarrow> bool" where
  "os_IsNotExist e = (e = ErrNotExist)"

datatype fnode = NoFile | NoAccess | File jtext

datatype io_event = DidRead string | DidWrite string

record World =
  files :: "string \<Rightarrow> fnode"
  iolog :: "io_event list"

definition os_ReadFile :: "string \<Rightarrow> World \<Rightarrow> (os_error + jtext) \<times> World" where
  "os_ReadFile name w =
     ((case files w name of
         NoFile \<Rightarrow> Inl ErrNotExist
       | NoAccess \<Rightarrow> Inl ErrPermission
       | File data \<Rightarrow> Inr data),
      w\<lparr>iolog := iolog w @ [DidRead name]\<rparr>)"

definition os_WriteFile :: "string \<Rightarrow> jtext \<Rightarrow> World \<Rightarrow> os_error option \<times> World" where
  "os_WriteFile name data w =
     (case files w name of
        NoAccess \<Rightarrow> (Some ErrPermission, w\<lparr>iolog := iolog w @ [DidWrite name]\<rparr>)
      | _ \<Rightarrow> (None, w\<lparr>files := (files w)(name := File data),
                        iolog := iolog w @ [DidWrite name]\<rparr>))"

definition filepath_Join :: "string \<Rightarrow> string \<Rightarrow> string" where
  "filepath_Join a b = (if a = [] then b else if b = [] then a else a @ ''/'' @ b)"

subsection \<open>keystore.go\<close>

datatype error =
    ErrEmptyToken
  | ErrNoKeystore string
  | ErrTokenExpired
  | ErrInvalidToken
  | ErrNoPrivateKey
  | FailedToMarshal json_error
  | FailedToWrite os_error
  | FailedToRead os_error
  | FailedToParse json_error
  | InvalidKeyFormat key_error
  | KeyError key_error

text \<open>
  \<open>ErrNoKeystore p\<close> is \<open>fmt.Errorf("%w at %s", ErrNoKeystore, s.path())\<close>. The
  \<open>FailedTo...\<close> errors and \<open>InvalidKeyFormat\<close> wrap the error of the package called;
  \<open>KeyError\<close> is the error of \<open>crypto.HexToECDSA\<close> as \<open>LoadPrivateKey\<close> returns it,
  unwrapped. The methods have a pointer receiver: each takes the record and the world
  and returns them as it leaves them.
\<close>

definition path :: "Store \<Rightarrow> string" where
  "path s = filepath_Join (DirPath (config s)) (FileName (config s))"

definition save :: "Store \<Rightarrow> World \<Rightarrow> error option \<times> World" where
  "save s w =
     (case json_MarshalIndent s of
        Inl err \<Rightarrow> (Some (FailedToMarshal err), w)
      | Inr data \<Rightarrow>
          (case os_WriteFile (path s) data w of
             (Some err, w') \<Rightarrow> (Some (FailedToWrite err), w')
           | (None, w') \<Rightarrow> (None, w')))"

definition load :: "Store \<Rightarrow> World \<Rightarrow> error option \<times> Store \<times> World" where
  "load s w =
     (case os_ReadFile (path s) w of
        (Inl err, w') \<Rightarrow>
          if os_IsNotExist err then (Some (ErrNoKeystore (path s)), s, w')
          else (Some (FailedToRead err), s, w')
      | (Inr data, w') \<Rightarrow>
          (case json_Unmarshal data s of
             (Some err, s') \<Rightarrow> (Some (FailedToParse err), s', w')
           | (None, s') \<Rightarrow> (None, s', w')))"

definition SaveToken :: "string \<Rightarrow> int64 \<Rightarrow> Store \<Rightarrow> World \<Rightarrow> error option \<times> Store \<times> World" where
  "SaveToken token now s w =
     (if token = [] then (Some ErrEmptyToken, s, w)
      else
        (let s1 = s\<lparr>AuthToken := token, CreatedAt := now\<rparr> in
         case save s1 w of (r, w') \<Rightarrow> (r, s1, w')))"

definition LoadToken :: "int64 \<Rightarrow> Store \<Rightarrow> World \<Rightarrow> (error + string) \<times> Store \<times> World" where
  "LoadToken now s w =
     (case load s w of
        (Some err, s', w') \<Rightarrow> (Inl err, s', w')
      | (None, s', w') \<Rightarrow>
          if AuthToken s' = [] then (Inl ErrInvalidToken, s', w')
          else if sint expiry_seconds < sint (now - CreatedAt s') then (Inl ErrTokenExpired, s', w')
          else (Inr (AuthToken s'), s', w'))"

definition SavePrivateKey :: "string \<Rightarrow> Store \<Rightarrow> World \<Rightarrow> error option \<times> Store \<times> World" where
  "SavePrivateKey privateKeyHex s w =
     (case HexToECDSA privateKeyHex of
        Inl err \<Rightarrow> (Some (InvalidKeyFormat err), s, w)
      | Inr _ \<Rightarrow>
          (let s1 = s\<lparr>PrivateKey := privateKeyHex\<rparr> in
           case save s1 w of (r, w') \<Rightarrow> (r, s1, w')))"

definition LoadPrivateKey :: "Store \<Rightarrow> World \<Rightarrow> (error + ecdsa_PrivateKey) \<times> Store \<times> World" where
  "LoadPrivateKey s w =
     (case load s w of
        (Some err, s', w') \<Rightarrow> (Inl err, s', w')
      | (None, s', w') \<Rightarrow>
          if PrivateKey s' = [] then (Inl ErrNoPrivateKey, s', w')
          else
            (case HexToECDSA (PrivateKey s') of
               Inl err \<Rightarrow> (Inl (KeyError err), s', w')
             | Inr key \<Rightarrow> (Inr key, s', w')))"

definition GetPrivateKeyHex :: "Store \<Rightarrow> World \<Rightarrow> (error + string) \<times> Store \<times> World" where
  "GetPrivateKeyHex s w =
     (case load s w of
        (Some err, s', w') \<Rightarrow> (Inl err, s', w')
      | (None, s', w') \<Rightarrow>
          if PrivateKey s' = [] then (Inl ErrNoPrivateKey, s', w')
          else (Inr (PrivateKey s'), s', w'))"

subsection \<open>What a file says about a field\<close>

text \<open>
  The value that the text of an object gives for a key, as a reader of the file sees
  it: the last member with that key whose value is not \<open>null\<close>, if there is one. This
  is the reference against which \<open>load\<close> is compared; \<open>load\<close> itself does not use it.
\<close>

fun stored_value :: "jkey \<Rightarrow> (jkey \<times> jvalue) list \<Rightarrow> jvalue option" where
  "stored_value k [] = None"
| "stored_value k ((k', v) # ms) =
     (case stored_value k ms of
        Some x \<Rightarrow> Some x
      | None \<Rightarrow> if k' = k \<and> v \<noteq> JNull then Some v else None)"

subsection \<open>Example states\<close>

text \<open>
  \<open>new_store cfg\<close> is \<open>&Store{config: cfg}\<close>, the record that \<open>NewKeystore\<close> returns;
  \<open>empty_disk\<close> has no file and \<open>disk_with name data\<close> exactly one. The two keys denote
  the scalar 10 and differ in the case of the last digit.
\<close>

definition example_config :: Config where
  "example_config = \<lparr>DirPath = ''/home/user/.parity'', FileName = ''keystore.json''\<rparr>"

definition new_store :: "Config \<Rightarrow> Store" where
  "new_store cfg = \<lparr>AuthToken = [], PrivateKey = [], CreatedAt = 0, config = cfg\<rparr>"

definition empty_disk :: World where
  "empty_disk = \<lparr>files = (\<lambda>_. NoFile), iolog = []\<rparr>"

definition disk_with :: "string \<Rightarrow> jtext \<Rightarrow> World" where
  "disk_with name data = \<lparr>files = (\<lambda>_. NoFile)(name := File data), iolog = []\<rparr>"

definition example_token :: string where
  "example_token = ''abc123''"

definition upper_key :: string where
  "upper_key = ''000000000000000000000000000000000000000000000000000000000000000A''"

definition lower_key :: string where
  "lower_key = ''000000000000000000000000000000000000000000000000000000000000000a''"

section \<open>Lemmas\<close>

subsection \<open>The results of \<open>save\<close> and \<open>load\<close>\<close>

lemma save_error_cases:
  "fst (save s w) = None \<or> fst (save s w) = Some (FailedToWrite ErrPermission)"
  by (simp add: save_def json_MarshalIndent_def os_WriteFile_def split: fnode.splits)

lemma save_ok:
  "save s w = (None, w') \<Longrightarrow>
   \<exists>d. json_MarshalIndent s = Inr d \<and> files w (path s) \<noteq> NoAccess \<and>
       w' = w\<lparr>files := (files w)(path s := File d), iolog := iolog w @ [DidWrite (path s)]\<rparr>"
  by (auto simp: save_def os_WriteFile_def json_MarshalIndent_def split: fnode.splits)

lemma save_succeeds: "files w (path s) \<noteq> NoAccess \<Longrightarrow> fst (save s w) = None"
  by (simp add: save_def json_MarshalIndent_def os_WriteFile_def split: fnode.splits)

lemma load_cases:
  obtains (missing) "files w (path s) = NoFile"
     "load s w = (Some (ErrNoKeystore (path s)), s, w\<lparr>iolog := iolog w @ [DidRead (path s)]\<rparr>)"
  | (denied) "files w (path s) = NoAccess"
     "load s w = (Some (FailedToRead ErrPermission), s, w\<lparr>iolog := iolog w @ [DidRead (path s)]\<rparr>)"
  | (bad) d e where "files w (path s) = File d" "fst (json_Unmarshal d s) = Some e"
     "load s w = (Some (FailedToParse e), snd (json_Unmarshal d s), w\<lparr>iolog := iolog w @ [DidRead (path s)]\<rparr>)"
  | (ok) d where "files w (path s) = File d" "fst (json_Unmarshal d s) = None"
     "load s w = (None, snd (json_Unmarshal d s), w\<lparr>iolog := iolog w @ [DidRead (path s)]\<rparr>)"
proof (cases "files w (path s)")
  case NoFile
  then show ?thesis using missing by (simp add: load_def os_ReadFile_def os_IsNotExist_def)
next
  case NoAccess
  then show ?thesis using denied by (simp add: load_def os_ReadFile_def os_IsNotExist_def)
next
  case (File d)
  obtain e s1 where u: "json_Unmarshal d s = (e, s1)"
    by (cases "json_Unmarshal d s")
  show ?thesis
  proof (cases e)
    case None
    with File u show ?thesis using ok [of d]
      by (simp add: load_def os_ReadFile_def)
  next
    case (Some x)
    with File u show ?thesis using bad [of d x]
      by (simp add: load_def os_ReadFile_def)
  qed
qed

lemma SaveToken_ok:
  assumes "SaveToken token now s w = (None, s1, w1)"
  shows "token \<noteq> []" and "s1 = s\<lparr>AuthToken := token, CreatedAt := now\<rparr>"
    and "save s1 w = (None, w1)"
  using assms by (auto simp: SaveToken_def Let_def split: if_splits prod.splits)

lemma SaveToken_succeeds:
  "token \<noteq> [] \<Longrightarrow> files w (path s) \<noteq> NoAccess \<Longrightarrow>
   \<exists>s1 w1. SaveToken token now s w = (None, s1, w1)"
  using save_succeeds [of w "s\<lparr>AuthToken := token, CreatedAt := now\<rparr>"]
  by (auto simp: SaveToken_def Let_def path_def split: prod.splits)

lemma SavePrivateKey_ok:
  assumes "SavePrivateKey k s w = (None, s1, w1)"
  shows "\<exists>key. HexToECDSA k = Inr key" and "s1 = s\<lparr>PrivateKey := k\<rparr>"
    and "save s1 w = (None, w1)"
  using assms by (auto simp: SavePrivateKey_def Let_def split: sum.splits prod.splits)

lemma SavePrivateKey_succeeds:
  "HexToECDSA k = Inr key \<Longrightarrow> files w (path s) \<noteq> NoAccess \<Longrightarrow>
   \<exists>s1 w1. SavePrivateKey k s w = (None, s1, w1)"
  using save_succeeds [of w "s\<lparr>PrivateKey := k\<rparr>"]
  by (auto simp: SavePrivateKey_def Let_def path_def split: prod.splits)

subsection \<open>The decoder stores what the file gives and keeps the rest\<close>

lemma d_member_ok:
  "d_member k v s = (None, s1) \<Longrightarrow>
     (k = K_other \<or> v = JNull) \<and> s1 = s \<or>
     (\<exists>t. k = K_auth_token \<and> v = JString t \<and> s1 = s\<lparr>AuthToken := t\<rparr>) \<or>
     (\<exists>t. k = K_private_key \<and> v = JString t \<and> s1 = s\<lparr>PrivateKey := t\<rparr>) \<or>
     (\<exists>n. k = K_created_at \<and> v = JInt n \<and> - (2 ^ 63) \<le> n \<and> n < 2 ^ 63 \<and> s1 = s\<lparr>CreatedAt := word_of_int n\<rparr>)"
  by (cases "(k, v, s)" rule: d_member.cases) (auto split: if_splits)

lemma d_object_None:
  "d_object ((k, v) # ms) s = (None, s') \<Longrightarrow>
   \<exists>s1. d_member k v s = (None, s1) \<and> d_object ms s1 = (None, s')"
  by (auto split: prod.splits option.splits)

lemma d_object_fields:
  "d_object ms s = (None, s') \<Longrightarrow>
     (case stored_value K_auth_token ms of
        None \<Rightarrow> AuthToken s' = AuthToken s
      | Some (JString t) \<Rightarrow> AuthToken s' = t
      | Some _ \<Rightarrow> False) \<and>
     (case stored_value K_private_key ms of
        None \<Rightarrow> PrivateKey s' = PrivateKey s
      | Some (JString t) \<Rightarrow> PrivateKey s' = t
      | Some _ \<Rightarrow> False) \<and>
     (case stored_value K_created_at ms of
        None \<Rightarrow> CreatedAt s' = CreatedAt s
      | Some (JInt n) \<Rightarrow> - (2 ^ 63) \<le> n \<and> n < 2 ^ 63 \<and> CreatedAt s' = word_of_int n
      | Some _ \<Rightarrow> False) \<and>
     config s' = config s"
proof (induction ms arbitrary: s)
  case Nil
  then show ?case by simp
next
  case (Cons m ms)
  obtain k v where m: "m = (k, v)" by (cases m)
  from Cons.prems m obtain s1 where
    s1: "d_member k v s = (None, s1)" and rest: "d_object ms s1 = (None, s')"
    using d_object_None by blast
  note ih = Cons.IH [OF rest]
  from d_member_ok [OF s1] ih show ?case unfolding m
    by (auto split: option.splits jvalue.splits)
qed

subsection \<open>Strings that survive the encoder\<close>

lemma toValidUTF8_ValidString: "ValidString t \<Longrightarrow> toValidUTF8 t = t"
proof (induction t rule: toValidUTF8.induct)
  case 1
  then show ?case by simp
next
  case (2 c cs)
  then show ?case by (auto split: if_splits)
qed

lemma toValidUTF8_Nil_iff: "toValidUTF8 t = [] \<longleftrightarrow> t = []"
  by (cases t) (auto simp: replacement_char_def)

lemma ascii_ValidString: "\<forall>c\<in>set t. (of_char c :: nat) < 128 \<Longrightarrow> ValidString t"
  by (induction t) (auto simp: rune_len_def)

subsection \<open>Reading back what was written\<close>

lemma sint_bounds: "- (2 ^ 63) \<le> sint (c :: int64) \<and> sint c < 2 ^ 63"
  using sint_ge [of c] sint_lt [of c] by simp

lemma Unmarshal_Marshal_into:
  assumes "json_MarshalIndent s = Inr d"
  shows "json_Unmarshal d r =
    (None, r\<lparr>AuthToken := (if AuthToken s = [] then AuthToken r else toValidUTF8 (AuthToken s)),
             PrivateKey := (if PrivateKey s = [] then PrivateKey r else toValidUTF8 (PrivateKey s)),
             CreatedAt := (if CreatedAt s = 0 then CreatedAt r else CreatedAt s)\<rparr>)"
  using assms sint_bounds [of "CreatedAt s"]
  by (auto simp: json_MarshalIndent_def toValidUTF8_Nil_iff)

lemma load_marshalled:
  assumes "files w (path r) = File d" and "json_MarshalIndent s = Inr d"
  shows "load r w =
    (None, r\<lparr>AuthToken := (if AuthToken s = [] then AuthToken r else toValidUTF8 (AuthToken s)),
             PrivateKey := (if PrivateKey s = [] then PrivateKey r else toValidUTF8 (PrivateKey s)),
             CreatedAt := (if CreatedAt s = 0 then CreatedAt r else CreatedAt s)\<rparr>,
     w\<lparr>iolog := iolog w @ [DidRead (path r)]\<rparr>)"
  using assms(1) Unmarshal_Marshal_into [OF assms(2), of r]
  by (simp add: load_def os_ReadFile_def)

lemma load_after_save:
  assumes "save s w = (None, w1)"
  shows "load s w1 =
    (None, s\<lparr>AuthToken := toValidUTF8 (AuthToken s), PrivateKey := toValidUTF8 (PrivateKey s)\<rparr>,
     w1\<lparr>iolog := iolog w1 @ [DidRead (path s)]\<rparr>)"
proof -
  from save_ok [OF assms] obtain d where
    d: "json_MarshalIndent s = Inr d" and
    w1: "w1 = w\<lparr>files := (files w)(path s := File d), iolog := iolog w @ [DidWrite (path s)]\<rparr>"
    by blast
  have f: "files w1 (path s) = File d" by (simp add: w1)
  have "s\<lparr>AuthToken := (if AuthToken s = [] then AuthToken s else toValidUTF8 (AuthToken s)),
          PrivateKey := (if PrivateKey s = [] then PrivateKey s else toValidUTF8 (PrivateKey s)),
          CreatedAt := (if CreatedAt s = 0 then CreatedAt s else CreatedAt s)\<rparr>
        = s\<lparr>AuthToken := toValidUTF8 (AuthToken s), PrivateKey := toValidUTF8 (PrivateKey s)\<rparr>"
    by (cases "AuthToken s = []"; cases "PrivateKey s = []") simp_all
  with load_marshalled [OF f d] show ?thesis by simp
qed

subsection \<open>Hexadecimal keys\<close>

lemma hex_digit_all:
  "\<forall>c. case fromHexChar c of
          None \<Rightarrow> True
        | Some a \<Rightarrow> a < 16 \<and> hextable ! a = lower_char c \<and> (of_char c :: nat) < 128"
  by code_simp

lemma fromHexChar_Some:
  assumes "fromHexChar c = Some a"
  shows "a < 16" and "hextable ! a = lower_char c" and "(of_char c :: nat) < 128"
  using hex_digit_all [THEN spec, of c] assms by simp_all

lemma hex_DecodeString_Inr:
  "hex_DecodeString k = Inr bs \<Longrightarrow>
   hex_EncodeToString bs = map lower_char k \<and> length k = 2 * length bs \<and>
   (\<forall>b\<in>set bs. b < 256) \<and> (\<forall>c\<in>set k. (of_char c :: nat) < 128)"
proof (induction k arbitrary: bs rule: hex_DecodeString.induct)
  case 1
  then show ?case by (simp add: hex_EncodeToString_def)
next
  case (2 q)
  then show ?case by (simp split: option.splits)
next
  case (3 p q rest)
  from "3.prems" obtain a b bs' where
    a: "fromHexChar p = Some a" and b: "fromHexChar q = Some b" and
    r: "hex_DecodeString rest = Inr bs'" and bs: "bs = (a * 16 + b) # bs'"
    by (auto split: option.splits sum.splits)
  note ih = "3.IH" [OF a b r]
  have ab: "a < 16" "b < 16" using fromHexChar_Some(1) a b by blast+
  then have "(a * 16 + b) div 16 = a" "(a * 16 + b) mod 16 = b" "a * 16 + b < 256"
    by auto
  with ih fromHexChar_Some(2,3) [OF a] fromHexChar_Some(2,3) [OF b] show ?case
    by (simp add: bs hex_EncodeToString_def)
qed

lemma SetBytes_snoc: "SetBytes (bs @ [b]) = SetBytes bs * 256 + b"
  by (simp add: SetBytes_def)

lemma SetBytes_bound: "\<forall>b\<in>set bs. b < 256 \<Longrightarrow> SetBytes bs < 256 ^ length bs"
proof (induction bs rule: rev_induct)
  case Nil
  then show ?case by (simp add: SetBytes_def)
next
  case (snoc b bs)
  then have "SetBytes bs + 1 \<le> 256 ^ length bs" and "b < 256" by auto
  then have "(SetBytes bs + 1) * 256 \<le> 256 ^ length bs * 256" by (simp only: mult_le_mono1)
  with \<open>b < 256\<close> show ?case by (simp add: SetBytes_snoc)
qed

lemma SetBytes_digit:
  "\<forall>b\<in>set bs. b < 256 \<Longrightarrow> i < length bs \<Longrightarrow>
   (SetBytes bs div 256 ^ (length bs - 1 - i)) mod 256 = bs ! i"
proof (induction bs rule: rev_induct)
  case Nil
  then show ?case by simp
next
  case (snoc b bs)
  show ?case
  proof (cases "i < length bs")
    case True
    then have e: "length (bs @ [b]) - 1 - i = Suc (length bs - 1 - i)" by simp
    have "(SetBytes bs * 256 + b) div 256 = SetBytes bs" using snoc.prems(1) by simp
    then have "(SetBytes bs * 256 + b) div 256 ^ Suc (length bs - 1 - i)
               = SetBytes bs div 256 ^ (length bs - 1 - i)"
      by (simp add: div_mult2_eq)
    with True snoc show ?thesis
      by (simp only: e SetBytes_snoc) (simp add: nth_append)
  next
    case False
    with snoc.prems(2) have "i = length bs" by simp
    with snoc.prems(1) show ?thesis by (simp add: SetBytes_snoc)
  qed
qed

lemma PaddedBigBytes_SetBytes:
  assumes "\<forall>b\<in>set bs. b < 256"
  shows "PaddedBigBytes (SetBytes bs) (length bs) = bs"
proof -
  have "map (\<lambda>i. (SetBytes bs div 256 ^ (length bs - 1 - i)) mod 256) [0..<length bs] = bs"
  proof (rule nth_equalityI)
    show "length (map (\<lambda>i. (SetBytes bs div 256 ^ (length bs - 1 - i)) mod 256) [0..<length bs])
          = length bs"
      by simp
  next
    fix i
    assume "i < length (map (\<lambda>i. (SetBytes bs div 256 ^ (length bs - 1 - i)) mod 256) [0..<length bs])"
    then have i: "i < length bs" by simp
    from SetBytes_digit [OF assms i] i
    show "map (\<lambda>i. (SetBytes bs div 256 ^ (length bs - 1 - i)) mod 256) [0..<length bs] ! i = bs ! i"
      by simp
  qed
  moreover have "\<not> 256 ^ length bs \<le> SetBytes bs"
    using SetBytes_bound [OF assms] by simp
  ultimately show ?thesis
    by (simp only: PaddedBigBytes_def if_False)
qed

lemma HexToECDSA_Inr:
  assumes "HexToECDSA k = Inr key"
  shows "key_hex key = map lower_char k" and "k \<noteq> []" and "toValidUTF8 k = k"
    and "length k = 64" and "0 < D key" and "D key < secp256k1N"
proof -
  from assms obtain bs where
    bs: "hex_DecodeString k = Inr bs" and key: "ToECDSA bs = Inr key"
    by (auto simp: HexToECDSA_def split: sum.splits hex_error.splits)
  from key have len: "length bs = 32" and D: "key = EcdsaKey (SetBytes bs)"
    and pos: "0 < SetBytes bs" and lt: "SetBytes bs < secp256k1N"
    by (auto simp: ToECDSA_def split: if_splits)
  note dec = hex_DecodeString_Inr [OF bs]
  from dec have "PaddedBigBytes (SetBytes bs) 32 = bs"
    using PaddedBigBytes_SetBytes [of bs] len by simp
  with dec show "key_hex key = map lower_char k"
    by (simp add: key_hex_def FromECDSA_def D)
  from dec len show "length k = 64" by simp
  then show "k \<noteq> []" by auto
  from dec show "toValidUTF8 k = k"
    by (intro toValidUTF8_ValidString ascii_ValidString) simp
  from pos lt D show "0 < D key" and "D key < secp256k1N" by simp_all
qed

subsection \<open>The clock\<close>

lemma sint_elapsed:
  fixes a b :: int64
  assumes "sint a \<le> sint b" and "sint b - sint a \<le> 3600"
  shows "sint (b - a) = sint b - sint a"
proof -
  have "sint (b - a) = signed_take_bit 63 (sint b - sint a)"
    by (simp add: sint_word_ariths)
  also have "\<dots> = sint b - sint a"
    using assms by (intro signed_take_bit_int_eq_self) auto
  finally show ?thesis .
qed

lemma LoadToken_fresh:
  assumes "load s w = (None, s', w')" and "AuthToken s' \<noteq> []"
    and "sint (CreatedAt s') \<le> sint now" and "sint now - sint (CreatedAt s') \<le> 3600"
  shows "LoadToken now s w = (Inr (AuthToken s'), s', w')"
  using assms sint_elapsed [OF assms(3,4)]
  by (simp add: LoadToken_def expiry_seconds_def TokenExpiryDuration_def)

lemma loads_after_full_save:
  assumes sv: "save s2 w = (None, w2)"
    and tok: "AuthToken s2 \<noteq> []"
    and key: "HexToECDSA (PrivateKey s2) = Inr key"
    and t: "sint (CreatedAt s2) \<le> sint now" "sint now - sint (CreatedAt s2) \<le> 3600"
  shows "fst (LoadToken now s2 w2) = Inr (toValidUTF8 (AuthToken s2)) \<and>
         fst (LoadPrivateKey s2 w2) = Inr key \<and>
         (case LoadToken now s2 w2 of (r, s3, w3) \<Rightarrow> fst (LoadPrivateKey s3 w3)) = Inr key \<and>
         (case LoadPrivateKey s2 w2 of (r, s3, w3) \<Rightarrow> fst (LoadToken now s3 w3)) =
           Inr (toValidUTF8 (AuthToken s2))"
proof -
  note hk = HexToECDSA_Inr [OF key]
  from save_ok [OF sv] obtain d where
    d: "json_MarshalIndent s2 = Inr d" and
    w2: "w2 = w\<lparr>files := (files w)(path s2 := File d), iolog := iolog w @ [DidWrite (path s2)]\<rparr>"
    by blast
  define s3 where "s3 = s2\<lparr>AuthToken := toValidUTF8 (AuthToken s2)\<rparr>"
  define w3 where "w3 = w2\<lparr>iolog := iolog w2 @ [DidRead (path s2)]\<rparr>"
  have tok': "toValidUTF8 (AuthToken s2) \<noteq> []"
    using tok by (simp add: toValidUTF8_Nil_iff)
  have f2: "files w2 (path s2) = File d" by (simp add: w2)
  have f3: "files w3 (path s3) = File d" by (simp add: w3_def s3_def w2 path_def)
  have l2: "load s2 w2 = (None, s3, w3)"
    using load_marshalled [OF f2 d] tok hk(2,3) by (simp add: s3_def w3_def)
  have l3: "load s3 w3 = (None, s3, w3\<lparr>iolog := iolog w3 @ [DidRead (path s3)]\<rparr>)"
    using load_marshalled [OF f3 d] tok hk(2,3) by (simp add: s3_def)
  have a3: "AuthToken s3 = toValidUTF8 (AuthToken s2)" "PrivateKey s3 = PrivateKey s2"
    "CreatedAt s3 = CreatedAt s2"
    by (simp_all add: s3_def)
  have T2: "LoadToken now s2 w2 = (Inr (toValidUTF8 (AuthToken s2)), s3, w3)"
    using LoadToken_fresh [OF l2, of now] tok' t a3 by simp
  have T3: "fst (LoadToken now s3 w3) = Inr (toValidUTF8 (AuthToken s2))"
    using LoadToken_fresh [OF l3, of now] tok' t a3 by simp
  have K2: "LoadPrivateKey s2 w2 = (Inr key, s3, w3)"
    using l2 a3 hk(2) key by (simp add: LoadPrivateKey_def)
  have K3: "fst (LoadPrivateKey s3 w3) = Inr key"
    using l3 a3 hk(2) key by (simp add: LoadPrivateKey_def)
  show ?thesis
    by (simp add: T2 T3 K2 K3)
qed

lemma LoadToken_stale:
  assumes "load s w = (None, s', w')" and "AuthToken s' \<noteq> []"
    and "3600 < sint (now - CreatedAt s')"
  shows "LoadToken now s w = (Inl ErrTokenExpired, s', w')"
  using assms by (simp add: LoadToken_def expiry_seconds_def TokenExpiryDuration_def)

lemma sint_sub_exact:
  fixes a b :: int64
  assumes "- (2 ^ 63) \<le> sint a - sint b" and "sint a - sint b < 2 ^ 63"
  shows "sint (a - b) = sint a - sint b"
proof -
  have "sint (a - b) = signed_take_bit 63 (sint a - sint b)"
    by (simp add: sint_word_ariths)
  also have "\<dots> = sint a - sint b"
    using assms by (intro signed_take_bit_int_eq_self) auto
  finally show ?thesis .
qed

lemma save_file:
  assumes "save s w = (None, w')"
  shows "files w' (path s) = File (JObject
       ((if AuthToken s = [] then [] else [(K_auth_token, JString (toValidUTF8 (AuthToken s)))]) @
        (if PrivateKey s = [] then [] else [(K_private_key, JString (toValidUTF8 (PrivateKey s)))]) @
        (if CreatedAt s = 0 then [] else [(K_created_at, JInt (sint (CreatedAt s)))])))"
  using save_ok [OF assms] by (auto simp: json_MarshalIndent_def)

lemma fresh_loads_after_full_save:
  assumes sv: "save s2 w = (None, w2)"
    and tok: "AuthToken s2 \<noteq> []"
    and key: "HexToECDSA (PrivateKey s2) = Inr key"
    and t: "sint (CreatedAt s2) \<le> sint now" "sint now - sint (CreatedAt s2) \<le> 3600"
    and cfg: "cfg = config s2"
  shows "fst (LoadToken now (new_store cfg) w2) = Inr (toValidUTF8 (AuthToken s2)) \<and>
         fst (LoadPrivateKey (new_store cfg) w2) = Inr key"
proof -
  note hk = HexToECDSA_Inr [OF key]
  from save_ok [OF sv] obtain d where
    d: "json_MarshalIndent s2 = Inr d" and
    w2: "w2 = w\<lparr>files := (files w)(path s2 := File d), iolog := iolog w @ [DidWrite (path s2)]\<rparr>"
    by blast
  let ?r = "new_store cfg"
  have p: "path ?r = path s2" by (simp add: path_def new_store_def cfg)
  have f: "files w2 (path ?r) = File d" by (simp add: w2 p)
  define r' where "r' = ?r\<lparr>AuthToken := toValidUTF8 (AuthToken s2), PrivateKey := PrivateKey s2,
      CreatedAt := CreatedAt s2\<rparr>"
  have l: "load ?r w2 = (None, r', w2\<lparr>iolog := iolog w2 @ [DidRead (path ?r)]\<rparr>)"
    using load_marshalled [OF f d] tok hk(2,3)
    by (cases "CreatedAt s2 = 0") (simp_all add: r'_def new_store_def)
  have a: "AuthToken r' = toValidUTF8 (AuthToken s2)" "PrivateKey r' = PrivateKey s2"
    "CreatedAt r' = CreatedAt s2"
    by (simp_all add: r'_def)
  have tok': "toValidUTF8 (AuthToken s2) \<noteq> []"
    using tok by (simp add: toValidUTF8_Nil_iff)
  have "fst (LoadToken now ?r w2) = Inr (toValidUTF8 (AuthToken s2))"
    using LoadToken_fresh [OF l, of now] tok' t a by simp
  moreover have "fst (LoadPrivateKey ?r w2) = Inr key"
    using l a hk(2) key by (simp add: LoadPrivateKey_def)
  ultimately show ?thesis by simp
qed

subsection \<open>Facts about the example states\<close>

lemmas run_defs =
  path_def filepath_Join_def example_config_def new_store_def empty_disk_def disk_with_def
  load_def save_def os_ReadFile_def os_WriteFile_def os_IsNotExist_def
  json_MarshalIndent_def rune_len_def is_cont_def replacement_char_def

lemma HexToECDSA_upper_key: "HexToECDSA upper_key = Inr (EcdsaKey 10)"
  by (simp add: upper_key_def HexToECDSA_def fromHexChar_def ToECDSA_def SetBytes_def secp256k1N_def)

lemma HexToECDSA_lower_key: "HexToECDSA lower_key = Inr (EcdsaKey 10)"
  by (simp add: lower_key_def HexToECDSA_def fromHexChar_def ToECDSA_def SetBytes_def secp256k1N_def)

lemma lower_upper_key: "map lower_char upper_key = lower_key"
  unfolding upper_key_def lower_key_def by code_simp

lemma lower_lower_key: "map lower_char lower_key = lower_key"
  unfolding lower_key_def by code_simp

lemma toValidUTF8_ff: "toValidUTF8 [CHR 0xFF] = [CHR 0xEF, CHR 0xBF, CHR 0xBD]"
  by (simp add: rune_len_def replacement_char_def)

lemma ValidString_example_token: "ValidString example_token"
  by (simp add: example_token_def rune_len_def)

lemma example_token_nonempty: "example_token \<noteq> []"
  by (simp add: example_token_def)

lemma empty_disk_free: "files empty_disk p \<noteq> NoAccess"
  by (simp add: empty_disk_def)

section \<open>The claims\<close>

subsection \<open>C1: what a successful load does to the record\<close>

text \<open>
  Claim C1, as amended. When \<open>load\<close> succeeds, the file at the record's path holds a
  JSON object or \<open>null\<close>. After the load, each of \<open>AuthToken\<close>, \<open>PrivateKey\<close> and
  \<open>CreatedAt\<close> for which the file gives a value has that value (a string for the two
  strings, an integer within \<open>int64\<close> for \<open>CreatedAt\<close>), and each field for which
  the file gives none has the value it had before the load; \<open>config\<close> is never
  changed. So \<open>load\<close> merges the file into the record. The claim as written says that
  a field absent from the file is reset to its empty or zero value; the counterexample
  below shows a load that succeeds and keeps the token the record held before.
\<close>

theorem load_merges:
  assumes "load s w = (None, s', w')"
  shows "\<exists>d. files w (path s) = File d \<and>
     (case d of
        JObject ms \<Rightarrow>
          (case stored_value K_auth_token ms of
             None \<Rightarrow> AuthToken s' = AuthToken s
           | Some (JString t) \<Rightarrow> AuthToken s' = t
           | Some _ \<Rightarrow> False) \<and>
          (case stored_value K_private_key ms of
             None \<Rightarrow> PrivateKey s' = PrivateKey s
           | Some (JString t) \<Rightarrow> PrivateKey s' = t
           | Some _ \<Rightarrow> False) \<and>
          (case stored_value K_created_at ms of
             None \<Rightarrow> CreatedAt s' = CreatedAt s
           | Some (JInt n) \<Rightarrow> - (2 ^ 63) \<le> n \<and> n < 2 ^ 63 \<and> CreatedAt s' = word_of_int n
           | Some _ \<Rightarrow> False) \<and>
          config s' = config s
      | JTopNull \<Rightarrow> s' = s
      | _ \<Rightarrow> False)"
proof (cases s w rule: load_cases)
  case (ok d)
  with assms have s': "s' = snd (json_Unmarshal d s)" by simp
  show ?thesis
  proof (cases d)
    case (JObject ms)
    with ok s' have "d_object ms s = (None, s')"
      by (simp add: prod_eq_iff)
    from d_object_fields [OF this] ok(1) JObject show ?thesis
      by simp
  qed (use ok s' in auto)
qed (use assms in auto)

text \<open>
  The record holds the token \<open>stale\<close>, the file holds only \<open>created_at\<close>. The load
  succeeds, sets \<open>CreatedAt\<close> and leaves the token in place.
\<close>

theorem load_keeps_absent_field_counterexample:
  "load ((new_store example_config)\<lparr>AuthToken := ''stale''\<rparr>)
        (disk_with ''/home/user/.parity/keystore.json'' (JObject [(K_created_at, JInt 5)]))
   = (None,
      (new_store example_config)\<lparr>AuthToken := ''stale'', CreatedAt := 5\<rparr>,
      (disk_with ''/home/user/.parity/keystore.json'' (JObject [(K_created_at, JInt 5)]))
        \<lparr>iolog := [DidRead ''/home/user/.parity/keystore.json'']\<rparr>)
   \<and> stored_value K_auth_token [(K_created_at, JInt 5)] = None
   \<and> ''stale'' \<noteq> []"
  by (simp add: run_defs)

theorem load_merges_witness:
  "load ((new_store example_config)\<lparr>AuthToken := ''stale''\<rparr>)
        (disk_with ''/home/user/.parity/keystore.json''
           (JObject [(K_created_at, JInt 5), (K_private_key, JString ''k'')]))
   = (None,
      (new_store example_config)\<lparr>AuthToken := ''stale'', PrivateKey := ''k'', CreatedAt := 5\<rparr>,
      (disk_with ''/home/user/.parity/keystore.json''
           (JObject [(K_created_at, JInt 5), (K_private_key, JString ''k'')]))
        \<lparr>iolog := [DidRead ''/home/user/.parity/keystore.json'']\<rparr>)
   \<and> (\<exists>d. files (disk_with ''/home/user/.parity/keystore.json''
           (JObject [(K_created_at, JInt 5), (K_private_key, JString ''k'')]))
             (path ((new_store example_config)\<lparr>AuthToken := ''stale''\<rparr>)) = File d)"
proof -
  let ?s = "(new_store example_config)\<lparr>AuthToken := ''stale''\<rparr>"
  let ?w = "disk_with ''/home/user/.parity/keystore.json''
           (JObject [(K_created_at, JInt 5), (K_private_key, JString ''k'')])"
  have h: "load ?s ?w =
    (None, (new_store example_config)\<lparr>AuthToken := ''stale'', PrivateKey := ''k'', CreatedAt := 5\<rparr>,
     ?w\<lparr>iolog := [DidRead ''/home/user/.parity/keystore.json'']\<rparr>)"
    by (simp add: run_defs)
  from load_merges [OF h] h show ?thesis by blast
qed

subsection \<open>C2: expiry of the token\<close>

text \<open>
  Claim C2, as amended. Let the load succeed and leave a non-empty token in the record.
  Then \<open>LoadToken\<close> fails with \<open>ErrTokenExpired\<close> exactly when the difference
  \<open>time.Now().Unix() - s.CreatedAt\<close>, computed in \<open>int64\<close> with wrap-around as the code
  computes it, is strictly greater than 3600, and returns the token exactly when it is
  at most 3600. With \<open>CreatedAt = now - 3601\<close> the token is expired, with
  \<open>CreatedAt = now - 3600\<close> it is returned. Whenever the exact difference of the two
  times fits \<open>int64\<close>, in particular whenever neither time is before the Unix epoch,
  the difference the code computes is the exact one, and \<open>LoadToken\<close> fails with
  \<open>ErrTokenExpired\<close> exactly when the exact age is strictly greater than 3600. The claim
  as written speaks of the age of every stored record: for a \<open>CreatedAt\<close> so far in
  the past that the subtraction wraps around, the exact age is above 3600 and the
  token is returned, as the counterexample shows.
\<close>

theorem LoadToken_expiry:
  assumes "load s w = (None, s', w')" and "AuthToken s' \<noteq> []"
  shows "(fst (LoadToken now s w) = Inl ErrTokenExpired) = (3600 < sint (now - CreatedAt s')) \<and>
         (fst (LoadToken now s w) = Inr (AuthToken s')) = (sint (now - CreatedAt s') \<le> 3600) \<and>
         (CreatedAt s' = now - 3601 \<longrightarrow> fst (LoadToken now s w) = Inl ErrTokenExpired) \<and>
         (CreatedAt s' = now - 3600 \<longrightarrow> fst (LoadToken now s w) = Inr (AuthToken s')) \<and>
         (- (2 ^ 63) \<le> sint now - sint (CreatedAt s') \<and> sint now - sint (CreatedAt s') < 2 ^ 63 \<longrightarrow>
            sint (now - CreatedAt s') = sint now - sint (CreatedAt s') \<and>
            (fst (LoadToken now s w) = Inl ErrTokenExpired) = (3600 < sint now - sint (CreatedAt s')) \<and>
            (fst (LoadToken now s w) = Inr (AuthToken s')) = (sint now - sint (CreatedAt s') \<le> 3600)) \<and>
         (0 \<le> sint now \<and> 0 \<le> sint (CreatedAt s') \<longrightarrow>
            (fst (LoadToken now s w) = Inl ErrTokenExpired) = (3600 < sint now - sint (CreatedAt s')) \<and>
            (fst (LoadToken now s w) = Inr (AuthToken s')) = (sint now - sint (CreatedAt s') \<le> 3600))"
proof -
  let ?c = "CreatedAt s'"
  have code: "(fst (LoadToken now s w) = Inl ErrTokenExpired) = (3600 < sint (now - ?c))"
    "(fst (LoadToken now s w) = Inr (AuthToken s')) = (sint (now - ?c) \<le> 3600)"
    using assms by (auto simp: LoadToken_def expiry_seconds_def TokenExpiryDuration_def)
  have b1: "fst (LoadToken now s w) = Inl ErrTokenExpired" if "?c = now - 3601"
    using that code(1) by simp
  have b2: "fst (LoadToken now s w) = Inr (AuthToken s')" if "?c = now - 3600"
    using that code(2) by simp
  have exact: "sint (now - ?c) = sint now - sint ?c"
    if "- (2 ^ 63) \<le> sint now - sint ?c \<and> sint now - sint ?c < 2 ^ 63"
    using that by (intro sint_sub_exact) auto
  have pos: "- (2 ^ 63) \<le> sint now - sint ?c \<and> sint now - sint ?c < 2 ^ 63"
    if "0 \<le> sint now \<and> 0 \<le> sint ?c"
    using that sint_lt [of now] sint_lt [of ?c] by simp
  from code b1 b2 exact pos show ?thesis
    by (metis (no_types, lifting))
qed

text \<open>
  The file gives \<open>created_at\<close> as the smallest \<open>int64\<close> and the clock reads 1000: the
  exact age is far above 3600, the difference the code computes is negative.
\<close>

theorem LoadToken_expiry_counterexample:
  "3600 < sint (1000 :: int64) - sint (word_of_int (- 9223372036854775808) :: int64) \<and>
   fst (LoadToken 1000 (new_store example_config)
          (disk_with ''/home/user/.parity/keystore.json''
             (JObject [(K_auth_token, JString ''abc123''),
                       (K_created_at, JInt (- 9223372036854775808))])))
     = Inr ''abc123''"
  by (simp add: run_defs LoadToken_def expiry_seconds_def TokenExpiryDuration_def)

theorem LoadToken_expiry_witness:
  "fst (LoadToken 4601 (new_store example_config)
          (disk_with ''/home/user/.parity/keystore.json''
             (JObject [(K_auth_token, JString ''abc123''), (K_created_at, JInt 1000)])))
     = Inl ErrTokenExpired \<and>
   fst (LoadToken 4600 (new_store example_config)
          (disk_with ''/home/user/.parity/keystore.json''
             (JObject [(K_auth_token, JString ''abc123''), (K_created_at, JInt 1000)])))
     = Inr ''abc123'' \<and>
   sint (4601 - 1000 :: int64) = sint (4601 :: int64) - sint (1000 :: int64) \<and>
   0 \<le> sint (4601 :: int64) \<and> 0 \<le> sint (1000 :: int64) \<and>
   3600 < sint (4601 :: int64) - sint (1000 :: int64)"
proof -
  let ?s = "new_store example_config"
  let ?w = "disk_with ''/home/user/.parity/keystore.json''
             (JObject [(K_auth_token, JString ''abc123''), (K_created_at, JInt 1000)])"
  let ?s' = "(new_store example_config)\<lparr>AuthToken := ''abc123'', CreatedAt := 1000\<rparr>"
  have h: "load ?s ?w = (None, ?s', ?w\<lparr>iolog := [DidRead ''/home/user/.parity/keystore.json'']\<rparr>)"
    by (simp add: run_defs)
  have t: "AuthToken ?s' \<noteq> []" by simp
  from LoadToken_expiry [OF h t, of 4601]
  have a: "fst (LoadToken 4601 ?s ?w) = Inl ErrTokenExpired" by simp
  from LoadToken_expiry [OF h t, of 4600]
  have b: "fst (LoadToken 4600 ?s ?w) = Inr ''abc123''" by simp
  from a b show ?thesis by simp
qed

subsection \<open>C3: the empty token\<close>

text \<open>
  Claim C3. \<open>SaveToken\<close> of the empty string returns \<open>ErrEmptyToken\<close> and leaves the
  record and the world as they were: no file is changed and the log of file operations
  gets no entry. \<open>SaveToken\<close> returns \<open>ErrEmptyToken\<close> if and only if the token is empty.
\<close>

theorem SaveToken_empty_rejected:
  "SaveToken [] now s w = (Some ErrEmptyToken, s, w) \<and>
   (fst (SaveToken token now s w) = Some ErrEmptyToken) = (token = [])"
proof -
  have "fst (SaveToken token now s w) \<noteq> Some ErrEmptyToken" if "token \<noteq> []"
    using that save_error_cases [of "s\<lparr>AuthToken := token, CreatedAt := now\<rparr>" w]
    by (auto simp: SaveToken_def Let_def split: prod.splits)
  then show ?thesis
    by (auto simp: SaveToken_def)
qed

theorem SaveToken_empty_rejected_witness:
  "SaveToken [] 1000 (new_store example_config) empty_disk
     = (Some ErrEmptyToken, new_store example_config, empty_disk) \<and>
   fst (SaveToken example_token 1000 (new_store example_config) empty_disk) \<noteq> Some ErrEmptyToken"
  using SaveToken_empty_rejected [of 1000 "new_store example_config" empty_disk example_token]
    example_token_nonempty
  by simp

subsection \<open>C4: no keystore, or an invalid token\<close>

text \<open>
  Claim C4. \<open>LoadToken\<close> returns \<open>ErrNoKeystore\<close> exactly when there is no file at the
  record's path, and the error carries that path. It returns \<open>ErrInvalidToken\<close> exactly
  when the file exists, is decoded into the record without error, and the record's
  token is empty afterwards. The first needs the file to be absent and the second
  needs it to be there, so no state gives both.
\<close>

theorem LoadToken_missing_or_invalid:
  "(fst (LoadToken now s w) = Inl (ErrNoKeystore p)) = (files w (path s) = NoFile \<and> p = path s) \<and>
   (fst (LoadToken now s w) = Inl ErrInvalidToken) =
     (\<exists>d. files w (path s) = File d \<and> fst (json_Unmarshal d s) = None \<and>
          AuthToken (snd (json_Unmarshal d s)) = [])"
  by (cases s w rule: load_cases) (auto simp: LoadToken_def)

theorem LoadToken_missing_or_invalid_witness:
  "fst (LoadToken 1000 (new_store example_config) empty_disk)
     = Inl (ErrNoKeystore ''/home/user/.parity/keystore.json'') \<and>
   fst (LoadToken 1000 (new_store example_config)
          (disk_with ''/home/user/.parity/keystore.json'' (JObject [(K_created_at, JInt 5)])))
     = Inl ErrInvalidToken"
  using LoadToken_missing_or_invalid [of 1000 "new_store example_config" empty_disk
      "''/home/user/.parity/keystore.json''"]
    LoadToken_missing_or_invalid [of 1000 "new_store example_config"
      "disk_with ''/home/user/.parity/keystore.json'' (JObject [(K_created_at, JInt 5)])"
      "''/home/user/.parity/keystore.json''"]
  by (simp add: run_defs)

subsection \<open>C5: a key that does not parse is not saved\<close>

text \<open>
  Claim C5. When \<open>crypto.HexToECDSA\<close> refuses the string, \<open>SavePrivateKey\<close> returns the
  error wrapped as an invalid key format and leaves the record and the world as they
  were: the key held before stays, no file is written, and the log of file operations
  gets no entry.
\<close>

theorem SavePrivateKey_invalid_key:
  "HexToECDSA privateKeyHex = Inl err \<Longrightarrow>
   SavePrivateKey privateKeyHex s w = (Some (InvalidKeyFormat err), s, w)"
  by (simp add: SavePrivateKey_def)

theorem SavePrivateKey_invalid_key_witness:
  "HexToECDSA ''not-a-valid-hex-key'' = Inl (InvalidHexCharacter CHR ''n'') \<and>
   SavePrivateKey ''not-a-valid-hex-key''
     ((new_store example_config)\<lparr>PrivateKey := lower_key\<rparr>) empty_disk
   = (Some (InvalidKeyFormat (InvalidHexCharacter CHR ''n'')),
      (new_store example_config)\<lparr>PrivateKey := lower_key\<rparr>, empty_disk)"
proof -
  have h: "HexToECDSA ''not-a-valid-hex-key'' = Inl (InvalidHexCharacter CHR ''n'')"
    by (simp add: HexToECDSA_def fromHexChar_def)
  from SavePrivateKey_invalid_key [OF h] h show ?thesis by simp
qed

subsection \<open>C6: a token saved is the token loaded\<close>

text \<open>
  Claim C6, as amended. Let \<open>SaveToken\<close> of a non-empty token succeed at time \<open>now1\<close>,
  and let \<open>LoadToken\<close> follow on the same record and world at a time \<open>now2\<close> that is
  not before \<open>now1\<close> and at most 3600 seconds after it. Then \<open>LoadToken\<close> succeeds and
  returns the token as \<open>encoding/json\<close> wrote it: every byte that is not part of a
  well-formed UTF-8 sequence replaced by U+FFFD. It returns exactly the token when the
  token is valid UTF-8. The claim as written says exactly the token for every
  non-empty string; the counterexample is the one-byte token 0xFF.
\<close>

theorem SaveToken_then_LoadToken:
  assumes "token \<noteq> []"
    and "SaveToken token now1 s w = (None, s1, w1)"
    and "sint now1 \<le> sint now2" and "sint now2 - sint now1 \<le> 3600"
  shows "fst (LoadToken now2 s1 w1) = Inr (toValidUTF8 token) \<and>
         (ValidString token \<longrightarrow> fst (LoadToken now2 s1 w1) = Inr token)"
proof -
  note sv = SaveToken_ok [OF assms(2)]
  let ?s' = "s1\<lparr>AuthToken := toValidUTF8 (AuthToken s1), PrivateKey := toValidUTF8 (PrivateKey s1)\<rparr>"
  have l: "load s1 w1 = (None, ?s', w1\<lparr>iolog := iolog w1 @ [DidRead (path s1)]\<rparr>)"
    by (rule load_after_save [OF sv(3)])
  have "AuthToken ?s' = toValidUTF8 token" "CreatedAt ?s' = now1"
    by (simp_all add: sv(2))
  moreover have "toValidUTF8 token \<noteq> []"
    using assms(1) by (simp add: toValidUTF8_Nil_iff)
  ultimately have "fst (LoadToken now2 s1 w1) = Inr (toValidUTF8 token)"
    using LoadToken_fresh [OF l, of now2] assms(3,4) by simp
  then show ?thesis
    by (simp add: toValidUTF8_ValidString)
qed

theorem SaveToken_then_LoadToken_counterexample:
  "fst (SaveToken [CHR 0xFF] 1000 (new_store example_config) empty_disk) = None \<and>
   (case SaveToken [CHR 0xFF] 1000 (new_store example_config) empty_disk of
      (r, s1, w1) \<Rightarrow> fst (LoadToken 1000 s1 w1)) = Inr [CHR 0xEF, CHR 0xBF, CHR 0xBD] \<and>
   [CHR 0xEF, CHR 0xBF, CHR 0xBD] \<noteq> [CHR 0xFF]"
  by (simp add: SaveToken_def LoadToken_def run_defs toValidUTF8_ff
      expiry_seconds_def TokenExpiryDuration_def)

theorem SaveToken_then_LoadToken_witness:
  "example_token \<noteq> [] \<and> ValidString example_token \<and>
   fst (SaveToken example_token 1000 (new_store example_config) empty_disk) = None \<and>
   (case SaveToken example_token 1000 (new_store example_config) empty_disk of
      (r, s1, w1) \<Rightarrow> fst (LoadToken 1060 s1 w1)) = Inr example_token"
proof -
  obtain s1 w1 where h: "SaveToken example_token 1000 (new_store example_config) empty_disk = (None, s1, w1)"
    using SaveToken_succeeds [OF example_token_nonempty empty_disk_free] by blast
  have b: "sint (1000 :: int64) \<le> sint (1060 :: int64)" by simp
  have c: "sint (1060 :: int64) - sint (1000 :: int64) \<le> 3600" by simp
  from SaveToken_then_LoadToken [OF example_token_nonempty h b c]
    h ValidString_example_token example_token_nonempty
  show ?thesis by (simp add: toValidUTF8_ValidString)
qed

subsection \<open>C7: a key saved is the key loaded\<close>

text \<open>
  Claim C7, as amended. Let \<open>k\<close> be a string that \<open>crypto.HexToECDSA\<close> accepts, with key
  \<open>key\<close>, and let \<open>SavePrivateKey k\<close> succeed. Then \<open>GetPrivateKeyHex\<close> returns \<open>k\<close>
  unchanged, \<open>LoadPrivateKey\<close> returns \<open>key\<close>, and the hexadecimal form of \<open>key\<close>
  (\<open>hex.EncodeToString(crypto.FromECDSA(key))\<close>) is \<open>k\<close> with its letters in lower case:
  it is \<open>k\<close> itself when \<open>k\<close> has no upper-case letter. The claim as written says that
  the re-encoded form equals \<open>k\<close> for every valid \<open>k\<close>; the parser accepts the digits A to
  F in upper case too, and the counterexample is such a key: it and its lower-case form
  parse to the same key, so no way of re-encoding the key gives back both.
\<close>

theorem SavePrivateKey_then_load:
  assumes "HexToECDSA k = Inr key"
    and "SavePrivateKey k s w = (None, s1, w1)"
  shows "fst (GetPrivateKeyHex s1 w1) = Inr k \<and>
         fst (LoadPrivateKey s1 w1) = Inr key \<and>
         key_hex key = map lower_char k \<and>
         (map lower_char k = k \<longrightarrow> key_hex key = k)"
proof -
  note sv = SavePrivateKey_ok [OF assms(2)]
  note hk = HexToECDSA_Inr [OF assms(1)]
  let ?s' = "s1\<lparr>AuthToken := toValidUTF8 (AuthToken s1), PrivateKey := toValidUTF8 (PrivateKey s1)\<rparr>"
  have l: "load s1 w1 = (None, ?s', w1\<lparr>iolog := iolog w1 @ [DidRead (path s1)]\<rparr>)"
    by (rule load_after_save [OF sv(3)])
  have pk: "PrivateKey ?s' = k"
    by (simp add: sv(2) hk(3))
  from l pk hk(2) assms(1) have "fst (GetPrivateKeyHex s1 w1) = Inr k"
    and "fst (LoadPrivateKey s1 w1) = Inr key"
    by (simp_all add: GetPrivateKeyHex_def LoadPrivateKey_def)
  with hk(1) show ?thesis by simp
qed

theorem SavePrivateKey_then_load_counterexample:
  "HexToECDSA upper_key = Inr (EcdsaKey 10) \<and>
   fst (SavePrivateKey upper_key (new_store example_config) empty_disk) = None \<and>
   (case SavePrivateKey upper_key (new_store example_config) empty_disk of
      (r, s1, w1) \<Rightarrow> fst (LoadPrivateKey s1 w1)) = Inr (EcdsaKey 10) \<and>
   key_hex (EcdsaKey 10) = lower_key \<and> lower_key \<noteq> upper_key \<and>
   HexToECDSA lower_key = HexToECDSA upper_key"
proof -
  obtain s1 w1 where h: "SavePrivateKey upper_key (new_store example_config) empty_disk = (None, s1, w1)"
    using SavePrivateKey_succeeds [OF HexToECDSA_upper_key empty_disk_free] by blast
  note sv = SavePrivateKey_ok(2,3) [OF h]
  note hk = HexToECDSA_Inr [OF HexToECDSA_upper_key]
  have "fst (LoadPrivateKey s1 w1) = Inr (EcdsaKey 10)"
    using load_after_save [OF sv(2)] hk(2,3) HexToECDSA_upper_key
    by (simp add: LoadPrivateKey_def sv(1))
  moreover have "key_hex (EcdsaKey 10) = lower_key"
    using hk(1) by (simp add: lower_upper_key)
  moreover have "lower_key \<noteq> upper_key"
    by (simp add: upper_key_def lower_key_def)
  ultimately show ?thesis using h HexToECDSA_upper_key HexToECDSA_lower_key by simp
qed

theorem SavePrivateKey_then_load_witness:
  "HexToECDSA lower_key = Inr (EcdsaKey 10) \<and>
   fst (SavePrivateKey lower_key (new_store example_config) empty_disk) = None \<and>
   (case SavePrivateKey lower_key (new_store example_config) empty_disk of
      (r, s1, w1) \<Rightarrow> fst (GetPrivateKeyHex s1 w1) = Inr lower_key \<and>
                     fst (LoadPrivateKey s1 w1) = Inr (EcdsaKey 10)) \<and>
   key_hex (EcdsaKey 10) = lower_key"
proof -
  obtain s1 w1 where h: "SavePrivateKey lower_key (new_store example_config) empty_disk = (None, s1, w1)"
    using SavePrivateKey_succeeds [OF HexToECDSA_lower_key empty_disk_free] by blast
  from SavePrivateKey_then_load [OF HexToECDSA_lower_key h] h HexToECDSA_lower_key
  show ?thesis by (simp add: lower_lower_key)
qed

subsection \<open>C8: saving the token and the key keeps both\<close>

text \<open>
  Claim C8, as amended. Let the token be non-empty and the key valid, and let both be
  saved on the same record, in either order, both saves succeeding, the token at time
  \<open>now1\<close>. Then the file holds the token (as \<open>encoding/json\<close> writes it), the key and
  the time of the token's save, whatever it held before. At a time \<open>now2\<close> not before
  \<open>now1\<close> and at most 3600 seconds after it, \<open>LoadToken\<close> and \<open>LoadPrivateKey\<close> both
  succeed on that record, whichever is called first, and they succeed as well on a
  new record of the same configuration, which has nothing but the file to read them
  from. \<open>SaveToken\<close> does not change the key in the record and writes it to the file
  with the token; \<open>SavePrivateKey\<close> changes neither the token nor \<open>CreatedAt\<close> and
  writes them to the file with the key. The claim as written sets no limit on the time
  of the load: called more than 3600 seconds after the token was saved, \<open>LoadToken\<close>
  fails with \<open>ErrTokenExpired\<close>, as the counterexample shows.
\<close>

theorem token_and_key_both_kept:
  assumes "token \<noteq> []" and "HexToECDSA k = Inr key"
    and "sint now1 \<le> sint now2" and "sint now2 - sint now1 \<le> 3600"
  shows
    "(SaveToken token now1 s w = (None, s1, w1) \<and> SavePrivateKey k s1 w1 = (None, s2, w2) \<or>
      SavePrivateKey k s w = (None, s1, w1) \<and> SaveToken token now1 s1 w1 = (None, s2, w2) \<longrightarrow>
        fst (LoadToken now2 s2 w2) = Inr (toValidUTF8 token) \<and>
        fst (LoadPrivateKey s2 w2) = Inr key \<and>
        (case LoadToken now2 s2 w2 of (r, s3, w3) \<Rightarrow> fst (LoadPrivateKey s3 w3)) = Inr key \<and>
        (case LoadPrivateKey s2 w2 of (r, s3, w3) \<Rightarrow> fst (LoadToken now2 s3 w3)) =
          Inr (toValidUTF8 token) \<and>
        files w2 (path s) = File (JObject
          ([(K_auth_token, JString (toValidUTF8 token)), (K_private_key, JString k)] @
           (if now1 = 0 then [] else [(K_created_at, JInt (sint now1))]))) \<and>
        fst (LoadToken now2 (new_store (config s)) w2) = Inr (toValidUTF8 token) \<and>
        fst (LoadPrivateKey (new_store (config s)) w2) = Inr key) \<and>
     PrivateKey (fst (snd (SaveToken token now1 s w))) = PrivateKey s \<and>
     AuthToken (fst (snd (SavePrivateKey k s w))) = AuthToken s \<and>
     CreatedAt (fst (snd (SavePrivateKey k s w))) = CreatedAt s \<and>
     (SaveToken token now1 s w = (None, s1, w1) \<longrightarrow>
        files w1 (path s) = File (JObject
          ([(K_auth_token, JString (toValidUTF8 token))] @
           (if PrivateKey s = [] then []
            else [(K_private_key, JString (toValidUTF8 (PrivateKey s)))]) @
           (if now1 = 0 then [] else [(K_created_at, JInt (sint now1))]))) \<and>
        PrivateKey s1 = PrivateKey s) \<and>
     (SavePrivateKey k s w = (None, s1, w1) \<longrightarrow>
        files w1 (path s) = File (JObject
          ((if AuthToken s = [] then []
            else [(K_auth_token, JString (toValidUTF8 (AuthToken s)))]) @
           [(K_private_key, JString k)] @
           (if CreatedAt s = 0 then [] else [(K_created_at, JInt (sint (CreatedAt s)))]))) \<and>
        AuthToken s1 = AuthToken s \<and> CreatedAt s1 = CreatedAt s)"
proof -
  note hk = HexToECDSA_Inr [OF assms(2)]
  let ?loads = "fst (LoadToken now2 s2 w2) = Inr (toValidUTF8 token) \<and>
        fst (LoadPrivateKey s2 w2) = Inr key \<and>
        (case LoadToken now2 s2 w2 of (r, s3, w3) \<Rightarrow> fst (LoadPrivateKey s3 w3)) = Inr key \<and>
        (case LoadPrivateKey s2 w2 of (r, s3, w3) \<Rightarrow> fst (LoadToken now2 s3 w3)) =
          Inr (toValidUTF8 token) \<and>
        files w2 (path s) = File (JObject
          ([(K_auth_token, JString (toValidUTF8 token)), (K_private_key, JString k)] @
           (if now1 = 0 then [] else [(K_created_at, JInt (sint now1))]))) \<and>
        fst (LoadToken now2 (new_store (config s)) w2) = Inr (toValidUTF8 token) \<and>
        fst (LoadPrivateKey (new_store (config s)) w2) = Inr key"
  have both: ?loads
    if sv: "save s2 w' = (None, w2)" and f: "AuthToken s2 = token" "PrivateKey s2 = k"
      "CreatedAt s2 = now1" "config s2 = config s"
    for w'
  proof -
    have a: "fst (LoadToken now2 s2 w2) = Inr (toValidUTF8 token) \<and>
        fst (LoadPrivateKey s2 w2) = Inr key \<and>
        (case LoadToken now2 s2 w2 of (r, s3, w3) \<Rightarrow> fst (LoadPrivateKey s3 w3)) = Inr key \<and>
        (case LoadPrivateKey s2 w2 of (r, s3, w3) \<Rightarrow> fst (LoadToken now2 s3 w3)) =
          Inr (toValidUTF8 token)"
      using loads_after_full_save [OF sv, of key now2] f assms by simp
    have b: "fst (LoadToken now2 (new_store (config s)) w2) = Inr (toValidUTF8 token) \<and>
        fst (LoadPrivateKey (new_store (config s)) w2) = Inr key"
      using fresh_loads_after_full_save [OF sv, of key now2 "config s"] f assms by simp
    have p: "path s2 = path s" by (simp add: path_def f(4))
    have c: "files w2 (path s) = File (JObject
          ([(K_auth_token, JString (toValidUTF8 token)), (K_private_key, JString k)] @
           (if now1 = 0 then [] else [(K_created_at, JInt (sint now1))])))"
      using save_file [OF sv] assms(1) hk(2,3) by (simp add: f p)
    from a b c show ?thesis by simp
  qed
  have token_first: ?loads
    if a: "SaveToken token now1 s w = (None, s1, w1)"
      and b: "SavePrivateKey k s1 w1 = (None, s2, w2)"
  proof -
    note x = SaveToken_ok [OF a] and y = SavePrivateKey_ok [OF b]
    show ?thesis by (rule both [OF y(3)]) (simp_all add: x(2) y(2))
  qed
  have key_first: ?loads
    if a: "SavePrivateKey k s w = (None, s1, w1)"
      and b: "SaveToken token now1 s1 w1 = (None, s2, w2)"
  proof -
    note x = SavePrivateKey_ok [OF a] and y = SaveToken_ok [OF b]
    show ?thesis by (rule both [OF y(3)]) (simp_all add: x(2) y(2))
  qed
  have mem_token: "PrivateKey (fst (snd (SaveToken token now1 s w))) = PrivateKey s"
    by (simp add: SaveToken_def Let_def split: prod.splits)
  have mem_key: "AuthToken (fst (snd (SavePrivateKey k s w))) = AuthToken s"
    "CreatedAt (fst (snd (SavePrivateKey k s w))) = CreatedAt s"
    by (simp_all add: SavePrivateKey_def Let_def split: sum.splits prod.splits)
  have file_token: "files w1 (path s) = File (JObject
          ([(K_auth_token, JString (toValidUTF8 token))] @
           (if PrivateKey s = [] then []
            else [(K_private_key, JString (toValidUTF8 (PrivateKey s)))]) @
           (if now1 = 0 then [] else [(K_created_at, JInt (sint now1))]))) \<and>
        PrivateKey s1 = PrivateKey s"
    if a: "SaveToken token now1 s w = (None, s1, w1)"
  proof -
    note x = SaveToken_ok [OF a]
    have p: "path s1 = path s" by (simp add: path_def x(2))
    from save_file [OF x(3)] assms(1) show ?thesis
      by (simp add: x(2) p [unfolded x(2)])
  qed
  have file_key: "files w1 (path s) = File (JObject
          ((if AuthToken s = [] then []
            else [(K_auth_token, JString (toValidUTF8 (AuthToken s)))]) @
           [(K_private_key, JString k)] @
           (if CreatedAt s = 0 then [] else [(K_created_at, JInt (sint (CreatedAt s)))]))) \<and>
        AuthToken s1 = AuthToken s \<and> CreatedAt s1 = CreatedAt s"
    if a: "SavePrivateKey k s w = (None, s1, w1)"
  proof -
    note x = SavePrivateKey_ok [OF a]
    have p: "path s1 = path s" by (simp add: path_def x(2))
    from save_file [OF x(3)] hk(2,3) show ?thesis
      by (simp add: x(2) p [unfolded x(2)])
  qed
  from token_first key_first mem_token mem_key file_token file_key show ?thesis
    by blast
qed

text \<open>
  Both saves succeed at time 1000; at time 4601 the token has expired.
\<close>

theorem token_and_key_both_kept_counterexample:
  "example_token \<noteq> [] \<and> HexToECDSA lower_key = Inr (EcdsaKey 10) \<and>
   (case SaveToken example_token 1000 (new_store example_config) empty_disk of
      (r1, s1, w1) \<Rightarrow> r1 = None \<and>
        (case SavePrivateKey lower_key s1 w1 of
           (r2, s2, w2) \<Rightarrow> r2 = None \<and>
             fst (LoadToken 4601 s2 w2) = Inl ErrTokenExpired))"
proof -
  obtain s1 w1 where h1: "SaveToken example_token 1000 (new_store example_config) empty_disk = (None, s1, w1)"
    using SaveToken_succeeds [OF example_token_nonempty empty_disk_free] by blast
  have "files w1 (path s1) \<noteq> NoAccess"
    using save_ok [OF SaveToken_ok(3) [OF h1]] by auto
  then obtain s2 w2 where h2: "SavePrivateKey lower_key s1 w1 = (None, s2, w2)"
    using SavePrivateKey_succeeds [OF HexToECDSA_lower_key] by blast
  note x = SaveToken_ok [OF h1] and y = SavePrivateKey_ok [OF h2]
  let ?s' = "s2\<lparr>AuthToken := toValidUTF8 (AuthToken s2), PrivateKey := toValidUTF8 (PrivateKey s2)\<rparr>"
  have l: "load s2 w2 = (None, ?s', w2\<lparr>iolog := iolog w2 @ [DidRead (path s2)]\<rparr>)"
    by (rule load_after_save [OF y(3)])
  have tok: "AuthToken ?s' \<noteq> []"
    using example_token_nonempty by (simp add: x(2) y(2) toValidUTF8_Nil_iff)
  have age: "3600 < sint (4601 - CreatedAt ?s')"
    by (simp add: x(2) y(2))
  from LoadToken_stale [OF l tok age] h1 h2 example_token_nonempty HexToECDSA_lower_key
  show ?thesis by simp
qed

theorem token_and_key_both_kept_witness:
  "example_token \<noteq> [] \<and> HexToECDSA lower_key = Inr (EcdsaKey 10) \<and>
   (case SaveToken example_token 1000 (new_store example_config) empty_disk of
      (r1, s1, w1) \<Rightarrow> r1 = None \<and>
        (case SavePrivateKey lower_key s1 w1 of
           (r2, s2, w2) \<Rightarrow> r2 = None \<and>
             fst (LoadToken 1060 s2 w2) = Inr example_token \<and>
             fst (LoadPrivateKey s2 w2) = Inr (EcdsaKey 10) \<and>
             files w2 ''/home/user/.parity/keystore.json'' = File (JObject
               [(K_auth_token, JString example_token), (K_private_key, JString lower_key),
                (K_created_at, JInt 1000)]) \<and>
             fst (LoadToken 1060 (new_store example_config) w2) = Inr example_token \<and>
             fst (LoadPrivateKey (new_store example_config) w2) = Inr (EcdsaKey 10)))"
proof -
  obtain s1 w1 where h1: "SaveToken example_token 1000 (new_store example_config) empty_disk = (None, s1, w1)"
    using SaveToken_succeeds [OF example_token_nonempty empty_disk_free] by blast
  have "files w1 (path s1) \<noteq> NoAccess"
    using save_ok [OF SaveToken_ok(3) [OF h1]] by auto
  then obtain s2 w2 where h2: "SavePrivateKey lower_key s1 w1 = (None, s2, w2)"
    using SavePrivateKey_succeeds [OF HexToECDSA_lower_key] by blast
  have b: "sint (1000 :: int64) \<le> sint (1060 :: int64)" by simp
  have c: "sint (1060 :: int64) - sint (1000 :: int64) \<le> 3600" by simp
  have v: "toValidUTF8 example_token = example_token"
    by (rule toValidUTF8_ValidString [OF ValidString_example_token])
  have p: "path (new_store example_config) = ''/home/user/.parity/keystore.json''"
    by (simp add: run_defs)
  have cfg: "config (new_store example_config) = example_config"
    by (simp add: new_store_def)
  from token_and_key_both_kept [OF example_token_nonempty HexToECDSA_lower_key b c,
      of "new_store example_config" empty_disk s1 w1 s2 w2] h1 h2
  have "fst (LoadToken 1060 s2 w2) = Inr example_token \<and>
        fst (LoadPrivateKey s2 w2) = Inr (EcdsaKey 10) \<and>
        files w2 ''/home/user/.parity/keystore.json'' = File (JObject
               [(K_auth_token, JString example_token), (K_private_key, JString lower_key),
                (K_created_at, JInt 1000)]) \<and>
        fst (LoadToken 1060 (new_store example_config) w2) = Inr example_token \<and>
        fst (LoadPrivateKey (new_store example_config) w2) = Inr (EcdsaKey 10)"
    by (simp add: v p cfg)
  with h1 h2 example_token_nonempty HexToECDSA_lower_key show ?thesis by simp
qed

subsection \<open>C9: a token dated in the future\<close>

text \<open>
  Claim C9, as amended. Let the load succeed and leave a non-empty token in the
  record, with \<open>CreatedAt\<close> at or after the current time. If the clock reads a time at
  or after the Unix epoch, or more generally if \<open>CreatedAt\<close> is at most \<open>2^63\<close> seconds
  ahead of the clock, \<open>LoadToken\<close> returns the token. And whenever the age that the code
  computes in \<open>int64\<close> is zero or negative, \<open>LoadToken\<close> returns the token. The claim as
  written has no condition on the clock: for a clock before the epoch and a
  \<open>CreatedAt\<close> near the largest \<open>int64\<close> the subtraction wraps around to a positive
  age, and the counterexample gives \<open>ErrTokenExpired\<close>.
\<close>

theorem LoadToken_future_dated:
  assumes "load s w = (None, s', w')" and "AuthToken s' \<noteq> []"
  shows "(sint now \<le> sint (CreatedAt s') \<and>
          (0 \<le> sint now \<or> sint (CreatedAt s') - sint now \<le> 2 ^ 63) \<longrightarrow>
            LoadToken now s w = (Inr (AuthToken s'), s', w')) \<and>
         (sint (now - CreatedAt s') \<le> 0 \<longrightarrow>
            LoadToken now s w = (Inr (AuthToken s'), s', w'))"
proof -
  have valid: "LoadToken now s w = (Inr (AuthToken s'), s', w')"
    if "sint (now - CreatedAt s') \<le> 0"
    using that assms by (simp add: LoadToken_def expiry_seconds_def TokenExpiryDuration_def)
  have "sint (now - CreatedAt s') \<le> 0"
    if ahead: "sint now \<le> sint (CreatedAt s')"
      and near: "0 \<le> sint now \<or> sint (CreatedAt s') - sint now \<le> 2 ^ 63"
  proof -
    let ?d = "sint now - sint (CreatedAt s')"
    have "sint (CreatedAt s') < 2 ^ 63"
      using sint_lt [of "CreatedAt s'"] by simp
    with near have "- (2 ^ 63) \<le> ?d" by auto
    moreover from ahead have "?d < 2 ^ 63" by simp
    moreover have "sint (now - CreatedAt s') = signed_take_bit 63 ?d"
      by (simp add: sint_word_ariths)
    ultimately have "sint (now - CreatedAt s') = ?d"
      by (simp add: signed_take_bit_int_eq_self)
    with ahead show ?thesis by simp
  qed
  with valid show ?thesis by blast
qed

theorem LoadToken_future_dated_counterexample:
  "sint (- 3602 :: int64) \<le> sint (9223372036854775807 :: int64) \<and>
   fst (LoadToken (- 3602) (new_store example_config)
          (disk_with ''/home/user/.parity/keystore.json''
             (JObject [(K_auth_token, JString ''abc123''), (K_created_at, JInt 9223372036854775807)])))
     = Inl ErrTokenExpired"
  by (simp add: run_defs LoadToken_def expiry_seconds_def TokenExpiryDuration_def)

theorem LoadToken_future_dated_witness:
  "sint (1000 :: int64) \<le> sint (5000 :: int64) \<and> 0 \<le> sint (1000 :: int64) \<and>
   sint (1000 - 5000 :: int64) \<le> 0 \<and>
   fst (LoadToken 1000 (new_store example_config)
          (disk_with ''/home/user/.parity/keystore.json''
             (JObject [(K_auth_token, JString ''abc123''), (K_created_at, JInt 5000)])))
     = Inr ''abc123''"
proof -
  let ?s = "new_store example_config"
  let ?w = "disk_with ''/home/user/.parity/keystore.json''
             (JObject [(K_auth_token, JString ''abc123''), (K_created_at, JInt 5000)])"
  let ?s' = "(new_store example_config)\<lparr>AuthToken := ''abc123'', CreatedAt := 5000\<rparr>"
  have h: "load ?s ?w = (None, ?s', ?w\<lparr>iolog := [DidRead ''/home/user/.parity/keystore.json'']\<rparr>)"
    by (simp add: run_defs)
  have t: "AuthToken ?s' \<noteq> []" by simp
  from LoadToken_future_dated [OF h t, of 1000] show ?thesis by simp
qed

subsection \<open>C10: the two ways to read the key\<close>

text \<open>
  Claim C10. \<open>GetPrivateKeyHex\<close> and \<open>LoadPrivateKey\<close> load and check alike. From the
  same record and world: when \<open>GetPrivateKeyHex\<close> fails, \<open>LoadPrivateKey\<close> fails with the
  same error, which is that of a missing file, of reading, of parsing or of a missing
  key; when \<open>LoadPrivateKey\<close> fails with an error other than that of decoding the
  key, \<open>GetPrivateKeyHex\<close> fails with the same error; when \<open>GetPrivateKeyHex\<close>
  returns \<open>h\<close>, \<open>LoadPrivateKey\<close> returns what \<open>crypto.HexToECDSA\<close> gives for \<open>h\<close>; and
  both leave the same record and world.
\<close>

theorem key_paths_agree:
  "(fst (GetPrivateKeyHex s w) = Inl e \<longrightarrow> fst (LoadPrivateKey s w) = Inl e) \<and>
   ((\<forall>ke. e \<noteq> KeyError ke) \<longrightarrow> fst (LoadPrivateKey s w) = Inl e \<longrightarrow> fst (GetPrivateKeyHex s w) = Inl e) \<and>
   (fst (GetPrivateKeyHex s w) = Inr h \<longrightarrow>
      fst (LoadPrivateKey s w) = (case HexToECDSA h of Inl ke \<Rightarrow> Inl (KeyError ke) | Inr key \<Rightarrow> Inr key)) \<and>
   (fst (GetPrivateKeyHex s w) = Inl e \<longrightarrow>
      e = ErrNoKeystore (path s) \<or> (\<exists>x. e = FailedToRead x) \<or> (\<exists>x. e = FailedToParse x) \<or>
      e = ErrNoPrivateKey) \<and>
   snd (GetPrivateKeyHex s w) = snd (LoadPrivateKey s w)"
proof (cases s w rule: load_cases)
  case missing
  then show ?thesis by (simp add: GetPrivateKeyHex_def LoadPrivateKey_def)
next
  case denied
  then show ?thesis by (auto simp: GetPrivateKeyHex_def LoadPrivateKey_def)
next
  case (bad d x)
  then show ?thesis by (auto simp: GetPrivateKeyHex_def LoadPrivateKey_def)
next
  case (ok d)
  then show ?thesis
    by (cases "HexToECDSA (PrivateKey (snd (json_Unmarshal d s)))")
       (auto simp: GetPrivateKeyHex_def LoadPrivateKey_def)
qed

theorem key_paths_agree_witness:
  "fst (GetPrivateKeyHex (new_store example_config) empty_disk)
     = Inl (ErrNoKeystore ''/home/user/.parity/keystore.json'') \<and>
   fst (LoadPrivateKey (new_store example_config) empty_disk)
     = Inl (ErrNoKeystore ''/home/user/.parity/keystore.json'') \<and>
   fst (GetPrivateKeyHex (new_store example_config)
          (disk_with ''/home/user/.parity/keystore.json'' (JObject [(K_private_key, JString lower_key)])))
     = Inr lower_key \<and>
   fst (LoadPrivateKey (new_store example_config)
          (disk_with ''/home/user/.parity/keystore.json'' (JObject [(K_private_key, JString lower_key)])))
     = Inr (EcdsaKey 10)"
proof -
  let ?s = "new_store example_config"
  let ?w = "disk_with ''/home/user/.parity/keystore.json'' (JObject [(K_private_key, JString lower_key)])"
  let ?e = "ErrNoKeystore ''/home/user/.parity/keystore.json''"
  have g1: "fst (GetPrivateKeyHex ?s empty_disk) = Inl ?e"
    by (simp add: GetPrivateKeyHex_def run_defs)
  have nonempty: "lower_key \<noteq> []"
    using HexToECDSA_Inr(2) [OF HexToECDSA_lower_key] .
  have g2: "fst (GetPrivateKeyHex ?s ?w) = Inr lower_key"
    using nonempty by (simp add: GetPrivateKeyHex_def run_defs)
  from key_paths_agree [of ?s empty_disk ?e lower_key] g1
  have l1: "fst (LoadPrivateKey ?s empty_disk) = Inl ?e"
    by blast
  from key_paths_agree [of ?s ?w ?e lower_key] g2
  have "fst (LoadPrivateKey ?s ?w) =
      (case HexToECDSA lower_key of Inl ke \<Rightarrow> Inl (KeyError ke) | Inr key \<Rightarrow> Inr key)"
    by blast
  then have l2: "fst (LoadPrivateKey ?s ?w) = Inr (EcdsaKey 10)"
    by (simp add: HexToECDSA_lower_key)
  from g1 g2 l1 l2 show ?thesis by (intro conjI)
qed

end
